theory Spec2Isabelle
  imports Main "HOL-Library.Char_ord"
begin

section \<open>The URL parser\<close>

text \<open>
  \<^verbatim>\<open>get_video_id\<close> of \<^verbatim>\<open>app.py\<close> runs
  \<^verbatim>\<open>re.search\<close> with the pattern \<^verbatim>\<open>(?:v=|\/)([0-9A-Za-z_-]{11}).*\<close>
  and returns group 1 of the match, or \<^verbatim>\<open>None\<close>. The pattern is embedded
  piece by piece. Only ASCII characters are named by the pattern, so the embedding gives the
  same answer whether a \<^typ>\<open>char\<close> is read as a code point or as a byte of UTF-8.
\<close>

definition in_range :: "char \<Rightarrow> char \<Rightarrow> char \<Rightarrow> bool" where
  "in_range lo hi c \<longleftrightarrow> lo \<le> c \<and> c \<le> hi"

text \<open>The character class \<^verbatim>\<open>[0-9A-Za-z_-]\<close>.\<close>

definition id_char :: "char \<Rightarrow> bool" where
  "id_char c \<longleftrightarrow>
     in_range CHR ''0'' CHR ''9'' c \<or> in_range CHR ''A'' CHR ''Z'' c \<or>
     in_range CHR ''a'' CHR ''z'' c \<or> c = CHR ''_'' \<or> c = CHR ''-''"

text \<open>A match object: the whole matched text and the text of the capturing group.\<close>

record re_match =
  group0 :: string
  group1 :: string

text \<open>\<^verbatim>\<open>.*\<close> takes every character up to the next line break; it can match nothing.\<close>

definition dot_star :: "string \<Rightarrow> string" where
  "dot_star s = takeWhile (\<lambda>c. c \<noteq> CHR 0x0A) s"

text \<open>
  One alternative of \<^verbatim>\<open>(?:v=|\/)\<close> matched at the start of \<open>s\<close>, followed by
  \<^verbatim>\<open>([0-9A-Za-z_-]{11})\<close> and \<^verbatim>\<open>.*\<close>.
\<close>

definition match_alt :: "string \<Rightarrow> string \<Rightarrow> re_match option" where
  "match_alt sep s =
     (if take (length sep) s = sep then
        (let rest = drop (length sep) s; g = take 11 rest in
         if length g = 11 \<and> list_all id_char g
         then Some \<lparr>group0 = sep @ g @ dot_star (drop 11 rest), group1 = g\<rparr>
         else None)
      else None)"

text \<open>The pattern at one start position: the first alternative, then on failure the second.\<close>

definition match_at :: "string \<Rightarrow> re_match option" where
  "match_at s = (case match_alt ''v='' s of Some m \<Rightarrow> Some m | None \<Rightarrow> match_alt ''/'' s)"

text \<open>
  \<^verbatim>\<open>re.search\<close> tries the start positions from left to right, the end of the
  string included, and stops at the first one where the pattern matches.
\<close>

fun re_search :: "string \<Rightarrow> re_match option" where
  "re_search [] = match_at []"
| "re_search (c # cs) =
     (case match_at (c # cs) of Some m \<Rightarrow> Some m | None \<Rightarrow> re_search cs)"

definition get_video_id :: "string \<Rightarrow> string option" where
  "get_video_id url = (case re_search url of Some m \<Rightarrow> Some (group1 m) | None \<Rightarrow> None)"

section \<open>Exceptions, services and the page\<close>

text \<open>
  What the two external services raise is a value. The handlers of \<^verbatim>\<open>app.py\<close> tell
  apart \<^verbatim>\<open>TranscriptsDisabled\<close>, \<^verbatim>\<open>NoTranscriptFound\<close> and any other
  \<^verbatim>\<open>Exception\<close>; a \<^verbatim>\<open>BaseException\<close> outside \<^verbatim>\<open>Exception\<close>
  (\<^verbatim>\<open>KeyboardInterrupt\<close>, \<^verbatim>\<open>SystemExit\<close>) is met by no handler.
  \<open>msg\<close> is the text that \<^verbatim>\<open>{e}\<close> formats.
\<close>

datatype exn_class = TranscriptsDisabled | NoTranscriptFound | OtherException | SystemExiting

record exn =
  cls :: exn_class
  msg :: string

text \<open>A caption fragment; only its \<^verbatim>\<open>"text"\<close> entry is read, any further entry is
  carried by the record extension.\<close>

record fragment =
  "text" :: string

text \<open>
  The outcome of \<^verbatim>\<open>YouTubeTranscriptApi.get_transcript(video_id)\<close> and of
  \<^verbatim>\<open>genai.GenerativeModel("gemini-pro").generate_content(full_prompt).text\<close>.
\<close>

record 'a services =
  get_transcript :: "string \<Rightarrow> exn + 'a fragment_scheme list"
  generate_content :: "string \<Rightarrow> exn + string"

text \<open>What one run of the script puts on the page, and the requests it sends out.\<close>

datatype ui_event =
    StImage string nat
  | StWarning string
  | StError string
  | StSpinner string
  | StSubheader string
  | StMarkdown string

datatype call = TranscriptCall string | GenerateCall string

record app_state =
  ui :: "ui_event list"
  calls :: "call list"

definition emit :: "ui_event \<Rightarrow> app_state \<Rightarrow> app_state" where
  "emit ev s = s\<lparr>ui := ui s @ [ev]\<rparr>"

definition record_call :: "call \<Rightarrow> app_state \<Rightarrow> app_state" where
  "record_call c s = s\<lparr>calls := calls s @ [c]\<rparr>"

definition dq :: string where
  "dq = [CHR 0x22]"

definition system_prompt :: string where
  "system_prompt =
   ''\<newline>''
   @ ''You are an advanced AI Content Strategist and Professional Note-Taker. Your task is to analyze the following YouTube video transcript and generate a comprehensive, '' @ dq @ ''University-Level'' @ dq @ '' study guide. \<newline>''
   @ ''\<newline>''
   @ ''The goal is that a reader must fully understand the specific value, technical details, and core message of the video WITHOUT needing to watch it.\<newline>''
   @ ''\<newline>''
   @ ''Please structure your response exactly as follows:\<newline>''
   @ ''\<newline>''
   @ ''1.  **EXECUTIVE SUMMARY (TL;DR):**\<newline>''
   @ ''    * Provide a 3-5 sentence high-level overview of the video's main topic and purpose.\<newline>''
   @ ''\<newline>''
   @ ''2.  **CORE CONCEPTS & KEY TAKEAWAYS:**\<newline>''
   @ ''    * List the 5-7 most critical points discussed.\<newline>''
   @ ''    * Use bullet points.\<newline>''
   @ ''    * *Crucial:* Do not be vague. Instead of saying '' @ dq @ ''The speaker discussed tools,'' @ dq @ '' say '' @ dq @ ''The speaker recommended tools like X, Y, and Z for specific tasks.'' @ dq @ ''\<newline>''
   @ ''\<newline>''
   @ ''3.  **DETAILED BREAKDOWN:**\<newline>''
   @ ''    * Divide the video content into logical sections (e.g., '' @ dq @ ''Step 1,'' @ dq @ '' '' @ dq @ ''The Problem,'' @ dq @ '' '' @ dq @ ''The Solution'' @ dq @ '').\<newline>''
   @ ''    * Elaborate on the arguments, tutorials, or stories shared in the transcript.\<newline>''
   @ ''    * Include specific numbers, dates, code snippets (if technical), or quotes if they are pivotal.\<newline>''
   @ ''\<newline>''
   @ ''4.  **ACTIONABLE INSIGHTS / CONCLUSION:**\<newline>''
   @ ''    * What should the viewer do with this information?\<newline>''
   @ ''    * Summarize the final verdict or closing thoughts.\<newline>''
   @ ''\<newline>''
   @ ''TRANSCRIPT DATA:\<newline>''"

section \<open>The transcript fetcher\<close>

text \<open>The loop \<^verbatim>\<open>for i in transcript_text: transcript += " " + i["text"]\<close>.\<close>

fun join_fragments :: "string \<Rightarrow> 'a fragment_scheme list \<Rightarrow> string" where
  "join_fragments transcript [] = transcript"
| "join_fragments transcript (i # rest) = join_fragments (transcript @ '' '' @ text i) rest"

text \<open>
  The result is \<open>Inr\<close> of the returned value (\<open>None\<close> for Python's \<^verbatim>\<open>None\<close>), or
  \<open>Inl\<close> of an exception that leaves the function.
\<close>

definition extract_transcript_details ::
  "'a services \<Rightarrow> string \<Rightarrow> app_state \<Rightarrow> (exn + string option) \<times> app_state" where
  "extract_transcript_details env video_id s =
     (let s1 = record_call (TranscriptCall video_id) s in
      case get_transcript env video_id of
        Inr transcript_text \<Rightarrow> (Inr (Some (join_fragments [] transcript_text)), s1)
      | Inl e \<Rightarrow>
          (case cls e of
             TranscriptsDisabled \<Rightarrow>
               (Inr None, emit (StError ''Subtitles are disabled for this video.'') s1)
           | NoTranscriptFound \<Rightarrow>
               (Inr None, emit (StError ''No transcript found for this video language.'') s1)
           | OtherException \<Rightarrow>
               (Inr None, emit (StError (''Error extracting transcript: '' @ msg e)) s1)
           | SystemExiting \<Rightarrow> (Inl e, s1)))"

section \<open>The summary generator\<close>

text \<open>
  The three statements under \<^verbatim>\<open>try\<close> build the model object, send the composed
  prompt and read the text of the response; the service outcome stands for all three, and
  the request is recorded with the prompt that was composed.
\<close>

definition generate_gemini_content ::
  "'a services \<Rightarrow> string \<Rightarrow> string \<Rightarrow> app_state \<Rightarrow> (exn + string option) \<times> app_state" where
  "generate_gemini_content env transcript_text prompt s =
     (let full_prompt = prompt @ transcript_text;
          s1 = record_call (GenerateCall full_prompt) s in
      case generate_content env full_prompt of
        Inr response_text \<Rightarrow> (Inr (Some response_text), s1)
      | Inl e \<Rightarrow>
          (case cls e of
             SystemExiting \<Rightarrow> (Inl e, s1)
           | _ \<Rightarrow> (Inr None, emit (StError (''Error generating summary: '' @ msg e)) s1)))"

section \<open>The page script\<close>

text \<open>Python's truth value of a string or \<^verbatim>\<open>None\<close>.\<close>

fun truthy :: "string option \<Rightarrow> bool" where
  "truthy None = False"
| "truthy (Some v) = (v \<noteq> [])"

text \<open>The block under \<^verbatim>\<open>if youtube_link:\<close> that shows the thumbnail.\<close>

definition input_section :: "string \<Rightarrow> app_state \<Rightarrow> app_state" where
  "input_section youtube_link s =
     (if truthy (Some youtube_link) then
        (let video_id = get_video_id youtube_link in
         case video_id of
           Some v \<Rightarrow>
             (if truthy video_id
              then emit (StImage (''http://img.youtube.com/vi/'' @ v @ ''/0.jpg'') 500) s
              else emit (StWarning ''Please enter a valid YouTube URL.'') s)
         | None \<Rightarrow> emit (StWarning ''Please enter a valid YouTube URL.'') s)
      else s)"

definition spinner_text :: string where
  "spinner_text =
     ''Extracting transcript and generating professional notes... This may take a moment.''"

text \<open>The three calls that show a summary.\<close>

definition render_summary :: "string \<Rightarrow> app_state \<Rightarrow> app_state" where
  "render_summary summary s =
     emit (StMarkdown summary)
       (emit (StSubheader ''Here are your detailed notes:'') (emit (StMarkdown ''---'') s))"

text \<open>
  The block under \<^verbatim>\<open>if st.button("Generate Detailed Notes"):\<close>. The first component
  of the result is an exception that leaves the script, if any.
\<close>

definition button_branch :: "'a services \<Rightarrow> string \<Rightarrow> app_state \<Rightarrow> exn option \<times> app_state" where
  "button_branch env youtube_link s =
     (if \<not> truthy (Some youtube_link)
      then (None, emit (StWarning ''Please enter a YouTube link first.'') s)
      else
        (let video_id = get_video_id youtube_link in
         case video_id of
           None \<Rightarrow> (None, s)
         | Some v \<Rightarrow>
             if truthy video_id then
               (case extract_transcript_details env v (emit (StSpinner spinner_text) s) of
                  (Inl e, s2) \<Rightarrow> (Some e, s2)
                | (Inr transcript_text, s2) \<Rightarrow>
                    (case transcript_text of
                       None \<Rightarrow> (None, s2)
                     | Some t \<Rightarrow>
                         if truthy transcript_text then
                           (case generate_gemini_content env t system_prompt s2 of
                              (Inl e, s3) \<Rightarrow> (Some e, s3)
                            | (Inr summary, s3) \<Rightarrow>
                                (case summary of
                                   None \<Rightarrow> (None, s3)
                                 | Some x \<Rightarrow>
                                     if truthy summary then (None, render_summary x s3)
                                     else (None, s3)))
                         else (None, s2)))
             else (None, s)))"

text \<open>One run of the script, from the text input on: \<open>button\<close> tells whether the run was
  started by a click on the button.\<close>

definition run_script ::
  "'a services \<Rightarrow> string \<Rightarrow> bool \<Rightarrow> app_state \<Rightarrow> exn option \<times> app_state" where
  "run_script env youtube_link button s =
     (let s1 = input_section youtube_link s in
      if button then button_branch env youtube_link s1 else (None, s1))"

section \<open>Reference points for the properties\<close>

text \<open>
  The words of the specification for the transcript, ``the fragment texts separated by
  single spaces'', written down on their own to be compared with the loop of the fetcher.
\<close>

fun separated_by_spaces :: "string list \<Rightarrow> string" where
  "separated_by_spaces [] = []"
| "separated_by_spaces [t] = t"
| "separated_by_spaces (t # u # ts) = t @ '' '' @ separated_by_spaces (u # ts)"

text \<open>Services that answer every request with a fixed outcome, and a page with nothing on
  it, for the concrete runs below.\<close>

definition stub_services :: "exn + 'a fragment_scheme list \<Rightarrow> exn + string \<Rightarrow> 'a services" where
  "stub_services t g = \<lparr>get_transcript = (\<lambda>_. t), generate_content = (\<lambda>_. g)\<rparr>"

definition blank_page :: app_state where
  "blank_page = \<lparr>ui = [], calls = []\<rparr>"

definition hello_world :: "fragment list" where
  "hello_world = [\<lparr>text = ''Hello''\<rparr>, \<lparr>text = ''world''\<rparr>]"

section \<open>Properties of the URL parser\<close>

subsection \<open>The pattern at one position and the search over positions\<close>

lemma match_alt_Some_iff:
  "match_alt sep s = Some m \<longleftrightarrow>
     (\<exists>g suf. s = sep @ g @ suf \<and> length g = 11 \<and> list_all id_char g \<and>
        m = \<lparr>group0 = sep @ g @ dot_star suf, group1 = g\<rparr>)"
proof
  assume a: "match_alt sep s = Some m"
  then have p: "take (length sep) s = sep"
    by (simp add: match_alt_def split: if_splits)
  define rest where "rest = drop (length sep) s"
  define g where "g = take 11 rest"
  from a p have g: "length g = 11" "list_all id_char g"
    and m: "m = \<lparr>group0 = sep @ g @ dot_star (drop 11 rest), group1 = g\<rparr>"
    by (auto simp: match_alt_def Let_def rest_def g_def split: if_splits)
  have "s = sep @ rest"
    using p by (metis append_take_drop_id rest_def)
  moreover have "rest = g @ drop 11 rest"
    by (simp add: g_def)
  ultimately have "s = sep @ g @ drop 11 rest" by simp
  with g m show "\<exists>g suf. s = sep @ g @ suf \<and> length g = 11 \<and> list_all id_char g \<and>
        m = \<lparr>group0 = sep @ g @ dot_star suf, group1 = g\<rparr>"
    by blast
next
  assume "\<exists>g suf. s = sep @ g @ suf \<and> length g = 11 \<and> list_all id_char g \<and>
        m = \<lparr>group0 = sep @ g @ dot_star suf, group1 = g\<rparr>"
  then obtain g suf where "s = sep @ g @ suf" "length g = 11" "list_all id_char g"
    "m = \<lparr>group0 = sep @ g @ dot_star suf, group1 = g\<rparr>" by blast
  then show "match_alt sep s = Some m"
    by (simp add: match_alt_def)
qed

lemma match_alt_None_iff:
  "match_alt sep s = None \<longleftrightarrow>
     \<not> (\<exists>g suf. s = sep @ g @ suf \<and> length g = 11 \<and> list_all id_char g)"
  using match_alt_Some_iff [of sep s] by (metis not_None_eq)

lemma match_at_None_iff:
  "match_at s = None \<longleftrightarrow>
     \<not> (\<exists>sep g suf. s = sep @ g @ suf \<and> (sep = ''v='' \<or> sep = ''/'') \<and>
        length g = 11 \<and> list_all id_char g)"
proof -
  have "match_at s = None \<longleftrightarrow> match_alt ''v='' s = None \<and> match_alt ''/'' s = None"
    by (simp add: match_at_def split: option.splits)
  then show ?thesis
    unfolding match_alt_None_iff by blast
qed

lemma match_at_decomposed:
  assumes "s = sep @ g @ suf" "sep = ''v='' \<or> sep = ''/''" "length g = 11" "list_all id_char g"
  shows "\<exists>m. match_at s = Some m \<and> group1 m = g"
proof -
  from assms(2) show ?thesis
  proof
    assume "sep = ''v=''"
    with assms have "match_alt ''v='' s = Some \<lparr>group0 = sep @ g @ dot_star suf, group1 = g\<rparr>"
      unfolding match_alt_Some_iff by blast
    then show ?thesis by (simp add: match_at_def)
  next
    assume sep: "sep = ''/''"
    with assms have "match_alt ''/'' s = Some \<lparr>group0 = sep @ g @ dot_star suf, group1 = g\<rparr>"
      unfolding match_alt_Some_iff by blast
    moreover have "match_alt ''v='' s = None"
      using assms(1) sep by (simp add: match_alt_def)
    ultimately show ?thesis by (simp add: match_at_def)
  qed
qed

lemma match_at_SomeD:
  assumes "match_at s = Some m"
  shows "\<exists>sep suf. s = sep @ group1 m @ suf \<and> (sep = ''v='' \<or> sep = ''/'') \<and>
           length (group1 m) = 11 \<and> list_all id_char (group1 m)"
proof -
  from assms have "match_alt ''v='' s = Some m \<or> match_alt ''/'' s = Some m"
    by (simp add: match_at_def split: option.splits)
  then show ?thesis
    unfolding match_alt_Some_iff by fastforce
qed

lemma re_search_None_iff:
  "re_search s = None \<longleftrightarrow> (\<forall>pre t. s = pre @ t \<longrightarrow> match_at t = None)"
proof (induction s)
  case Nil
  then show ?case by simp
next
  case (Cons c cs)
  have "re_search (c # cs) = None \<longleftrightarrow> match_at (c # cs) = None \<and> re_search cs = None"
    by (simp split: option.splits)
  also have "\<dots> \<longleftrightarrow> match_at (c # cs) = None \<and> (\<forall>pre t. cs = pre @ t \<longrightarrow> match_at t = None)"
    using Cons.IH by simp
  also have "\<dots> \<longleftrightarrow> (\<forall>pre t. c # cs = pre @ t \<longrightarrow> match_at t = None)"
    by (auto simp: Cons_eq_append_conv)
  finally show ?case .
qed

lemma re_search_append:
  "match_at s = Some m \<Longrightarrow>
   (\<And>p1 p2. pre = p1 @ p2 \<Longrightarrow> p2 \<noteq> [] \<Longrightarrow> match_at (p2 @ s) = None) \<Longrightarrow>
   re_search (pre @ s) = Some m"
proof (induction pre)
  case Nil
  then show ?case by (cases s) simp_all
next
  case (Cons c pre)
  have "match_at (c # pre @ s) = None"
    using Cons.prems(2) [of "[]" "c # pre"] by simp
  moreover have "re_search (pre @ s) = Some m"
  proof (rule Cons.IH [OF Cons.prems(1)])
    fix p1 p2 assume "pre = p1 @ p2" "p2 \<noteq> []"
    then show "match_at (p2 @ s) = None"
      using Cons.prems(2) [of "c # p1" p2] by simp
  qed
  ultimately show ?case by simp
qed

lemma get_video_id_SomeD:
  assumes "get_video_id url = Some vid"
  shows "\<exists>pre sep suf. url = pre @ sep @ vid @ suf \<and> (sep = ''v='' \<or> sep = ''/'') \<and>
           length vid = 11 \<and> list_all id_char vid"
proof -
  from assms obtain m where m: "re_search url = Some m" "group1 m = vid"
    by (auto simp: get_video_id_def split: option.splits)
  have "\<exists>pre t. url = pre @ t \<and> match_at t = Some m"
    using m(1)
  proof (induction url)
    case Nil
    then show ?case by simp
  next
    case (Cons c cs)
    show ?case
    proof (cases "match_at (c # cs)")
      case None
      with Cons.prems have "re_search cs = Some m" by simp
      then obtain pre t where "cs = pre @ t" "match_at t = Some m"
        using Cons.IH by blast
      then have "c # cs = (c # pre) @ t \<and> match_at t = Some m" by simp
      then show ?thesis by blast
    next
      case (Some a)
      with Cons.prems have "c # cs = [] @ (c # cs) \<and> match_at (c # cs) = Some m" by simp
      then show ?thesis by blast
    qed
  qed
  then obtain pre t where t: "url = pre @ t" "match_at t = Some m" by blast
  from match_at_SomeD [OF t(2)] m(2) t(1) show ?thesis by auto
qed

lemma no_earlier_by_scan:
  assumes scan: "\<forall>k<n. match_at (drop k url) = None"
    and "url = pre' @ sep' @ vid' @ suf'" "sep' = ''v='' \<or> sep' = ''/''"
        "length vid' = 11" "list_all id_char vid'"
  shows "n \<le> length pre'"
proof (rule ccontr)
  assume "\<not> n \<le> length pre'"
  then have "match_at (drop (length pre') url) = None" using scan by simp
  then have "match_at (sep' @ vid' @ suf') = None" using assms(2) by simp
  moreover obtain m where "match_at (sep' @ vid' @ suf') = Some m"
    using match_at_decomposed [OF refl assms(3-5)] by blast
  ultimately show False by simp
qed

subsection \<open>Which identifier is returned\<close>

text \<open>
  Claim C1, as the code has it. When the input contains \<^verbatim>\<open>v=\<close> or \<^verbatim>\<open>/\<close>
  followed by 11 characters of the identifier class, and no such occurrence starts further
  to the left, \<^verbatim>\<open>get_video_id\<close> returns exactly those 11 characters: the leftmost
  occurrence is the one returned.
\<close>

theorem get_video_id_leftmost:
  assumes url: "url = pre @ sep @ vid @ suf"
    and sep: "sep = ''v='' \<or> sep = ''/''"
    and vid: "length vid = 11" "list_all id_char vid"
    and leftmost: "\<And>pre' sep' vid' suf'. url = pre' @ sep' @ vid' @ suf' \<Longrightarrow>
        sep' = ''v='' \<or> sep' = ''/'' \<Longrightarrow> length vid' = 11 \<Longrightarrow> list_all id_char vid' \<Longrightarrow>
        length pre \<le> length pre'"
  shows "get_video_id url = Some vid"
proof -
  obtain m where m: "match_at (sep @ vid @ suf) = Some m" "group1 m = vid"
    using match_at_decomposed [OF refl sep vid] by blast
  have "re_search (pre @ sep @ vid @ suf) = Some m"
  proof (rule re_search_append [OF m(1)])
    fix p1 p2 assume p: "pre = p1 @ p2" "p2 \<noteq> []"
    show "match_at (p2 @ sep @ vid @ suf) = None"
    proof (rule ccontr)
      assume "match_at (p2 @ sep @ vid @ suf) \<noteq> None"
      then obtain m' where "match_at (p2 @ sep @ vid @ suf) = Some m'" by blast
      from match_at_SomeD [OF this] obtain sep' suf' where
        d: "p2 @ sep @ vid @ suf = sep' @ group1 m' @ suf'" "sep' = ''v='' \<or> sep' = ''/''"
           "length (group1 m') = 11" "list_all id_char (group1 m')" by blast
      from d(1) p(1) url have "url = p1 @ sep' @ group1 m' @ suf'" by simp
      from leftmost [OF this d(2-4)] p show False by simp
    qed
  qed
  with url m(2) show ?thesis by (simp add: get_video_id_def)
qed

text \<open>The theorem at the short link \<^verbatim>\<open>https://youtu.be/dQw4w9WgXcQ\<close>.\<close>

theorem get_video_id_leftmost_witness:
  "''https://youtu.be/dQw4w9WgXcQ'' = ''https://youtu.be'' @ ''/'' @ ''dQw4w9WgXcQ'' @ []
   \<and> length ''dQw4w9WgXcQ'' = 11 \<and> list_all id_char ''dQw4w9WgXcQ''
   \<and> list_all (\<lambda>k. match_at (drop k ''https://youtu.be/dQw4w9WgXcQ'') = None)
         [0..<length ''https://youtu.be'']
   \<and> get_video_id ''https://youtu.be/dQw4w9WgXcQ'' = Some ''dQw4w9WgXcQ''"
proof -
  have url: "''https://youtu.be/dQw4w9WgXcQ'' = ''https://youtu.be'' @ ''/'' @ ''dQw4w9WgXcQ'' @ []"
    by simp
  have vid: "length ''dQw4w9WgXcQ'' = 11" "list_all id_char ''dQw4w9WgXcQ''"
    by (simp_all add: id_char_def in_range_def)
  have earlier: "list_all (\<lambda>k. match_at (drop k ''https://youtu.be/dQw4w9WgXcQ'') = None)
      [0..<length ''https://youtu.be'']"
    by (simp add: match_at_def match_alt_def id_char_def in_range_def)
  have scan: "\<forall>k<length ''https://youtu.be''.
      match_at (drop k ''https://youtu.be/dQw4w9WgXcQ'') = None"
    by (simp add: All_less_Suc eval_nat_numeral match_at_def match_alt_def id_char_def
        in_range_def)
  have "get_video_id ''https://youtu.be/dQw4w9WgXcQ'' = Some ''dQw4w9WgXcQ''"
    by (rule get_video_id_leftmost [OF url _ vid no_earlier_by_scan [OF scan]]) simp_all
  with url vid earlier show ?thesis by blast
qed

text \<open>
  Without the condition on the left the claim fails: this address contains
  \<^verbatim>\<open>/dQw4w9WgXcQ\<close>, and the parser returns the first 11 characters of the host
  name, which stand after an earlier \<^verbatim>\<open>/\<close>.
\<close>

theorem get_video_id_later_substring_counterexample:
  "''https://youtube-nocookie.com/embed/dQw4w9WgXcQ''
      = ''https://youtube-nocookie.com/embed'' @ ''/'' @ ''dQw4w9WgXcQ'' @ []
   \<and> length ''dQw4w9WgXcQ'' = 11 \<and> list_all id_char ''dQw4w9WgXcQ''
   \<and> get_video_id ''https://youtube-nocookie.com/embed/dQw4w9WgXcQ'' = Some ''youtube-noc''
   \<and> get_video_id ''https://youtube-nocookie.com/embed/dQw4w9WgXcQ'' \<noteq> Some ''dQw4w9WgXcQ''"
  by (simp add: get_video_id_def match_at_def match_alt_def id_char_def in_range_def)

text \<open>
  Claim C2. \<^verbatim>\<open>get_video_id\<close> returns \<^verbatim>\<open>None\<close> exactly for the inputs
  that contain no \<^verbatim>\<open>v=\<close> or \<^verbatim>\<open>/\<close> followed by 11 characters of the
  identifier class. The function is total, so this is the only way it yields no identifier.
\<close>

theorem get_video_id_None_iff:
  "get_video_id url = None \<longleftrightarrow>
     \<not> (\<exists>pre sep vid suf. url = pre @ sep @ vid @ suf \<and> (sep = ''v='' \<or> sep = ''/'') \<and>
          length vid = 11 \<and> list_all id_char vid)"
proof -
  have "get_video_id url = None \<longleftrightarrow> re_search url = None"
    by (simp add: get_video_id_def split: option.splits)
  also have "\<dots> \<longleftrightarrow> (\<forall>pre t. url = pre @ t \<longrightarrow> match_at t = None)"
    by (rule re_search_None_iff)
  also have "\<dots> \<longleftrightarrow> \<not> (\<exists>pre sep vid suf. url = pre @ sep @ vid @ suf \<and>
      (sep = ''v='' \<or> sep = ''/'') \<and> length vid = 11 \<and> list_all id_char vid)"
    unfolding match_at_None_iff by blast
  finally show ?thesis .
qed

text \<open>The theorem at an input without any separator.\<close>

theorem get_video_id_None_iff_witness:
  "get_video_id ''not a link'' = None
   \<and> \<not> (\<exists>pre sep vid suf. ''not a link'' = pre @ sep @ vid @ suf \<and>
          (sep = ''v='' \<or> sep = ''/'') \<and> length vid = 11 \<and> list_all id_char vid)"
proof -
  have "get_video_id ''not a link'' = None"
    by (simp add: get_video_id_def match_at_def match_alt_def id_char_def in_range_def)
  then show ?thesis
    using get_video_id_None_iff [of "''not a link''"] by blast
qed

section \<open>Properties of the transcript fetcher\<close>

lemma join_fragments_concat:
  "join_fragments acc frags = acc @ concat (map (\<lambda>i. '' '' @ text i) frags)"
  by (induction frags arbitrary: acc) simp_all

lemma concat_separated_by_spaces:
  "ts \<noteq> [] \<Longrightarrow> concat (map (\<lambda>t. '' '' @ t) ts) = '' '' @ separated_by_spaces ts"
  by (induction ts rule: separated_by_spaces.induct) simp_all

lemma join_fragments_eq_Nil: "join_fragments [] frags = [] \<longleftrightarrow> frags = []"
  by (cases frags) (simp_all add: join_fragments_concat)

text \<open>
  Claim C3. When the transcript service returns a sequence of fragments, the fetcher
  returns each fragment text preceded by one space, in the order of the service. For a
  sequence that is not empty this is one space followed by the texts separated by single
  spaces, and for the texts \<^verbatim>\<open>Hello\<close>, \<^verbatim>\<open>world\<close> it is
  \<^verbatim>\<open>" Hello world"\<close>.
\<close>

theorem extract_transcript_details_joins:
  assumes "get_transcript env video_id = Inr frags"
  shows "extract_transcript_details env video_id s =
           (Inr (Some (concat (map (\<lambda>i. '' '' @ text i) frags))),
            record_call (TranscriptCall video_id) s)
       \<and> (frags \<noteq> [] \<longrightarrow>
            concat (map (\<lambda>i. '' '' @ text i) frags) = '' '' @ separated_by_spaces (map text frags))
       \<and> (map text frags = [''Hello'', ''world''] \<longrightarrow>
            fst (extract_transcript_details env video_id s) = Inr (Some '' Hello world''))"
proof -
  have a: "extract_transcript_details env video_id s =
           (Inr (Some (concat (map (\<lambda>i. '' '' @ text i) frags))),
            record_call (TranscriptCall video_id) s)"
    using assms by (simp add: extract_transcript_details_def join_fragments_concat)
  have b: "concat (map (\<lambda>i. '' '' @ text i) frags) = '' '' @ separated_by_spaces (map text frags)"
    if "frags \<noteq> []"
    using concat_separated_by_spaces [of "map text frags"] that by (simp add: comp_def)
  have c: "fst (extract_transcript_details env video_id s) = Inr (Some '' Hello world'')"
    if "map text frags = [''Hello'', ''world'']"
  proof -
    have "concat (map (\<lambda>i. '' '' @ text i) frags) = concat (map (\<lambda>t. '' '' @ t) (map text frags))"
      by (simp add: comp_def)
    with that a show ?thesis by simp
  qed
  from a b c show ?thesis by blast
qed

text \<open>The theorem at a service that returns the two fragments of the example.\<close>

theorem extract_transcript_details_joins_witness:
  "get_transcript (stub_services (Inr hello_world) (Inr ''X'')) ''dQw4w9WgXcQ'' = Inr hello_world
   \<and> hello_world \<noteq> []
   \<and> map text hello_world = [''Hello'', ''world'']
   \<and> extract_transcript_details (stub_services (Inr hello_world) (Inr ''X'')) ''dQw4w9WgXcQ'' blank_page
       = (Inr (Some '' Hello world''), \<lparr>ui = [], calls = [TranscriptCall ''dQw4w9WgXcQ'']\<rparr>)"
proof -
  have h: "get_transcript (stub_services (Inr hello_world) (Inr ''X'')) ''dQw4w9WgXcQ'' = Inr hello_world"
    by (simp add: stub_services_def)
  show ?thesis
    using h extract_transcript_details_joins [OF h, of blank_page]
    by (simp add: hello_world_def blank_page_def record_call_def)
qed

section \<open>Properties of the page script\<close>

subsection \<open>The prompt template\<close>

lemma system_prompt_length: "length system_prompt = 1277"
  by (simp add: system_prompt_def dq_def)

subsection \<open>Unfolding the script along the extracted identifier\<close>

lemma get_video_id_Nil: "get_video_id [] = None"
  by (simp add: get_video_id_def match_at_def match_alt_def)

lemma get_video_id_Some_wellformed:
  assumes "get_video_id youtube_link = Some v"
  shows "youtube_link \<noteq> []" "v \<noteq> []" "length v = 11" "list_all id_char v"
proof -
  show "youtube_link \<noteq> []" using assms get_video_id_Nil by auto
  from get_video_id_SomeD [OF assms] show "length v = 11" "list_all id_char v" by auto
  then show "v \<noteq> []" by auto
qed

lemma button_branch_with_id:
  assumes "get_video_id youtube_link = Some v"
  shows "button_branch env youtube_link s =
    (case extract_transcript_details env v (emit (StSpinner spinner_text) s) of
       (Inl e, s2) \<Rightarrow> (Some e, s2)
     | (Inr transcript_text, s2) \<Rightarrow>
         (case transcript_text of
            None \<Rightarrow> (None, s2)
          | Some t \<Rightarrow>
              if t \<noteq> [] then
                (case generate_gemini_content env t system_prompt s2 of
                   (Inl e, s3) \<Rightarrow> (Some e, s3)
                 | (Inr summary, s3) \<Rightarrow>
                     (case summary of
                        None \<Rightarrow> (None, s3)
                      | Some x \<Rightarrow> if x \<noteq> [] then (None, render_summary x s3) else (None, s3)))
              else (None, s2)))"
  using assms get_video_id_Some_wellformed [OF assms]
  by (simp add: button_branch_def split: prod.splits sum.splits option.splits)

lemma button_branch_without_id:
  assumes "youtube_link \<noteq> []" "get_video_id youtube_link = None"
  shows "button_branch env youtube_link s = (None, s)"
  using assms by (simp add: button_branch_def)

lemma button_branch_empty_link:
  "button_branch env [] s = (None, emit (StWarning ''Please enter a YouTube link first.'') s)"
  by (simp add: button_branch_def)

lemma calls_emit [simp]: "calls (emit ev s) = calls s"
  by (simp add: emit_def)

lemma ui_emit [simp]: "ui (emit ev s) = ui s @ [ev]"
  by (simp add: emit_def)

lemma calls_record_call [simp]: "calls (record_call c s) = calls s @ [c]"
  by (simp add: record_call_def)

lemma ui_record_call [simp]: "ui (record_call c s) = ui s"
  by (simp add: record_call_def)

lemma calls_input_section: "calls (input_section youtube_link s) = calls s"
  by (simp add: input_section_def Let_def split: option.splits)

lemma extract_transcript_details_ok:
  "get_transcript env v = Inr frags \<Longrightarrow>
   extract_transcript_details env v s =
     (Inr (Some (join_fragments [] frags)), record_call (TranscriptCall v) s)"
  by (simp add: extract_transcript_details_def)

lemma run_script_button_with_id:
  assumes "get_video_id youtube_link = Some v"
  shows "run_script env youtube_link True s =
           button_branch env youtube_link
             (emit (StImage (''http://img.youtube.com/vi/'' @ v @ ''/0.jpg'') 500) s)"
  using assms get_video_id_Some_wellformed [OF assms]
  by (simp add: run_script_def input_section_def)

lemma button_branch_calls_without_id:
  assumes "get_video_id youtube_link = None"
  shows "calls (snd (button_branch env youtube_link s)) = calls s"
  using assms by (simp add: button_branch_def)

subsection \<open>Failures of the transcript fetch\<close>

text \<open>
  Claim C4. When the transcript service raises \<^verbatim>\<open>TranscriptsDisabled\<close>, the fetcher
  shows the one error message \<^verbatim>\<open>Subtitles are disabled for this video.\<close> and returns
  \<^verbatim>\<open>None\<close>; the button branch then ends with the spinner and that message on the page
  and with the transcript request as its only call, so no generation call is made.
\<close>

theorem transcripts_disabled_reported:
  assumes "get_transcript env video_id = Inl e" and "cls e = TranscriptsDisabled"
  shows "extract_transcript_details env video_id s =
           (Inr None, emit (StError ''Subtitles are disabled for this video.'')
                        (record_call (TranscriptCall video_id) s))
       \<and> (get_video_id youtube_link = Some video_id \<longrightarrow>
            button_branch env youtube_link s =
              (None, s\<lparr>ui := ui s @ [StSpinner spinner_text,
                                      StError ''Subtitles are disabled for this video.''],
                        calls := calls s @ [TranscriptCall video_id]\<rparr>))"
proof -
  have a: "extract_transcript_details env video_id s =
           (Inr None, emit (StError ''Subtitles are disabled for this video.'')
                        (record_call (TranscriptCall video_id) s))" for s
    using assms by (simp add: extract_transcript_details_def)
  have "button_branch env youtube_link s =
          (None, s\<lparr>ui := ui s @ [StSpinner spinner_text,
                                  StError ''Subtitles are disabled for this video.''],
                    calls := calls s @ [TranscriptCall video_id]\<rparr>)"
    if "get_video_id youtube_link = Some video_id"
    by (simp add: button_branch_with_id [OF that] a emit_def record_call_def)
  with a show ?thesis by blast
qed

text \<open>The theorem at a service that reports disabled subtitles for a short link.\<close>

theorem transcripts_disabled_reported_witness:
  "get_transcript (stub_services (Inl \<lparr>cls = TranscriptsDisabled, msg = ''disabled''\<rparr>) (Inr ''X'')
       :: unit services) ''dQw4w9WgXcQ'' = Inl \<lparr>cls = TranscriptsDisabled, msg = ''disabled''\<rparr>
   \<and> cls \<lparr>cls = TranscriptsDisabled, msg = ''disabled''\<rparr> = TranscriptsDisabled
   \<and> get_video_id ''https://youtu.be/dQw4w9WgXcQ'' = Some ''dQw4w9WgXcQ''
   \<and> button_branch (stub_services (Inl \<lparr>cls = TranscriptsDisabled, msg = ''disabled''\<rparr>) (Inr ''X'')
       :: unit services) ''https://youtu.be/dQw4w9WgXcQ'' blank_page =
       (None, \<lparr>ui = [StSpinner spinner_text, StError ''Subtitles are disabled for this video.''],
               calls = [TranscriptCall ''dQw4w9WgXcQ'']\<rparr>)"
proof -
  let ?e = "\<lparr>cls = TranscriptsDisabled, msg = ''disabled''\<rparr>"
  let ?env = "stub_services (Inl ?e) (Inr ''X'') :: unit services"
  have h1: "get_transcript ?env ''dQw4w9WgXcQ'' = Inl ?e" by (simp add: stub_services_def)
  have h2: "cls ?e = TranscriptsDisabled" by simp
  have h3: "get_video_id ''https://youtu.be/dQw4w9WgXcQ'' = Some ''dQw4w9WgXcQ''"
    by (simp add: get_video_id_def match_at_def match_alt_def id_char_def in_range_def)
  show ?thesis
    using transcripts_disabled_reported [OF h1 h2, of blank_page "''https://youtu.be/dQw4w9WgXcQ''"]
      h1 h3
    by (simp add: blank_page_def)
qed

text \<open>
  Claim C9. When the transcript service returns an empty sequence of fragments, the fetcher
  returns the empty string, and the button branch stops there: the page shows the spinner
  only, without an error message or a summary, and the transcript request is the only call.
\<close>

theorem empty_transcript_skips_generation:
  assumes "get_transcript env video_id = Inr []"
  shows "extract_transcript_details env video_id s =
           (Inr (Some []), record_call (TranscriptCall video_id) s)
       \<and> (get_video_id youtube_link = Some video_id \<longrightarrow>
            button_branch env youtube_link s =
              (None, s\<lparr>ui := ui s @ [StSpinner spinner_text],
                        calls := calls s @ [TranscriptCall video_id]\<rparr>))"
proof -
  have a: "extract_transcript_details env video_id s =
           (Inr (Some []), record_call (TranscriptCall video_id) s)" for s
    using extract_transcript_details_ok [OF assms] by simp
  have "button_branch env youtube_link s =
          (None, s\<lparr>ui := ui s @ [StSpinner spinner_text],
                    calls := calls s @ [TranscriptCall video_id]\<rparr>)"
    if "get_video_id youtube_link = Some video_id"
    by (simp add: button_branch_with_id [OF that] a emit_def record_call_def)
  with a show ?thesis by blast
qed

text \<open>The theorem at a service that returns no fragment.\<close>

theorem empty_transcript_skips_generation_witness:
  "get_transcript (stub_services (Inr []) (Inr ''X'') :: unit services) ''dQw4w9WgXcQ'' = Inr []
   \<and> get_video_id ''https://youtu.be/dQw4w9WgXcQ'' = Some ''dQw4w9WgXcQ''
   \<and> button_branch (stub_services (Inr []) (Inr ''X'') :: unit services)
        ''https://youtu.be/dQw4w9WgXcQ'' blank_page =
        (None, \<lparr>ui = [StSpinner spinner_text], calls = [TranscriptCall ''dQw4w9WgXcQ'']\<rparr>)"
proof -
  let ?env = "stub_services (Inr []) (Inr ''X'') :: unit services"
  have h1: "get_transcript ?env ''dQw4w9WgXcQ'' = Inr []" by (simp add: stub_services_def)
  have h2: "get_video_id ''https://youtu.be/dQw4w9WgXcQ'' = Some ''dQw4w9WgXcQ''"
    by (simp add: get_video_id_def match_at_def match_alt_def id_char_def in_range_def)
  show ?thesis
    using empty_transcript_skips_generation [OF h1, of blank_page "''https://youtu.be/dQw4w9WgXcQ''"]
      h1 h2
    by (simp add: blank_page_def)
qed

subsection \<open>The composed prompt and the rendered summary\<close>

text \<open>
  Claim C6. The prompt that \<^verbatim>\<open>generate_gemini_content\<close> sends is its prompt argument
  followed by the transcript text and nothing else, whatever the service answers; in the
  button branch the prompt argument is the fixed template, so after a fetch that returned
  fragments the generation call carries the template followed by the transcript.
\<close>

theorem full_prompt_template_first:
  "calls (snd (generate_gemini_content env transcript_text prompt s)) =
     calls s @ [GenerateCall (prompt @ transcript_text)]
   \<and> (get_video_id youtube_link = Some video_id \<and> get_transcript env video_id = Inr frags \<and>
        frags \<noteq> [] \<longrightarrow>
        calls (snd (button_branch env youtube_link s)) =
          calls s @ [TranscriptCall video_id,
                     GenerateCall (system_prompt @ join_fragments [] frags)])"
proof -
  have g: "calls (snd (generate_gemini_content env t p s)) = calls s @ [GenerateCall (p @ t)]"
    for t p s
    by (simp add: generate_gemini_content_def Let_def split: sum.splits exn_class.splits)
  have "calls (snd (button_branch env youtube_link s)) =
          calls s @ [TranscriptCall video_id,
                     GenerateCall (system_prompt @ join_fragments [] frags)]"
    if h: "get_video_id youtube_link = Some video_id" "get_transcript env video_id = Inr frags"
      "frags \<noteq> []"
  proof -
    let ?t = "join_fragments [] frags"
    let ?s2 = "record_call (TranscriptCall video_id) (emit (StSpinner spinner_text) s)"
    have ne: "?t \<noteq> []" using h(3) by (simp add: join_fragments_eq_Nil)
    have c: "calls (snd (generate_gemini_content env ?t system_prompt ?s2)) =
        calls s @ [TranscriptCall video_id, GenerateCall (system_prompt @ ?t)]"
      by (simp add: g)
    obtain r s3 where gen: "generate_gemini_content env ?t system_prompt ?s2 = (r, s3)"
      by (cases "generate_gemini_content env ?t system_prompt ?s2")
    with c have s3: "calls s3 =
        calls s @ [TranscriptCall video_id, GenerateCall (system_prompt @ ?t)]" by simp
    show ?thesis
      using ne s3
      by (simp add: button_branch_with_id [OF h(1)] extract_transcript_details_ok [OF h(2)] gen
          render_summary_def split: sum.splits option.splits)
  qed
  with g show ?thesis by blast
qed

text \<open>The theorem at the two fragments of the example.\<close>

theorem full_prompt_template_first_witness:
  "get_video_id ''https://youtu.be/dQw4w9WgXcQ'' = Some ''dQw4w9WgXcQ''
   \<and> get_transcript (stub_services (Inr hello_world) (Inr ''X'')) ''dQw4w9WgXcQ'' = Inr hello_world
   \<and> hello_world \<noteq> []
   \<and> calls (snd (button_branch (stub_services (Inr hello_world) (Inr ''X''))
        ''https://youtu.be/dQw4w9WgXcQ'' blank_page)) =
        [TranscriptCall ''dQw4w9WgXcQ'', GenerateCall (system_prompt @ '' Hello world'')]"
proof -
  let ?env = "stub_services (Inr hello_world) (Inr ''X'')"
  have h1: "get_video_id ''https://youtu.be/dQw4w9WgXcQ'' = Some ''dQw4w9WgXcQ''"
    by (simp add: get_video_id_def match_at_def match_alt_def id_char_def in_range_def)
  have h2: "get_transcript ?env ''dQw4w9WgXcQ'' = Inr hello_world"
    by (simp add: stub_services_def)
  have h3: "hello_world \<noteq> []" by (simp add: hello_world_def)
  have j: "join_fragments [] hello_world = '' Hello world''"
    by (simp add: hello_world_def)
  show ?thesis
    using full_prompt_template_first [of ?env _ _ blank_page "''https://youtu.be/dQw4w9WgXcQ''"
        "''dQw4w9WgXcQ''" hello_world] h1 h2 h3 j
    by (simp add: blank_page_def)
qed

text \<open>
  Claim C5, as the code has it. When an identifier is extracted, the transcript fetch
  succeeds with a transcript that is not empty, and the generation service returns a text
  \<open>x\<close> that is not empty, the button branch shows the spinner, a rule, the heading and
  then \<open>x\<close> unchanged; no exception leaves the script and the last element on the page
  is \<open>x\<close>.
\<close>

theorem summary_rendered_unmodified:
  assumes "get_video_id youtube_link = Some video_id"
    and "get_transcript env video_id = Inr frags"
    and "join_fragments [] frags \<noteq> []"
    and "generate_content env (system_prompt @ join_fragments [] frags) = Inr x"
    and "x \<noteq> []"
  shows "button_branch env youtube_link s =
           (None, s\<lparr>ui := ui s @ [StSpinner spinner_text, StMarkdown ''---'',
                                   StSubheader ''Here are your detailed notes:'', StMarkdown x],
                     calls := calls s @ [TranscriptCall video_id,
                                         GenerateCall (system_prompt @ join_fragments [] frags)]\<rparr>)
       \<and> fst (run_script env youtube_link True s) = None
       \<and> last (ui (snd (run_script env youtube_link True s))) = StMarkdown x"
proof -
  have b: "button_branch env youtube_link s =
           (None, s\<lparr>ui := ui s @ [StSpinner spinner_text, StMarkdown ''---'',
                                   StSubheader ''Here are your detailed notes:'', StMarkdown x],
                     calls := calls s @ [TranscriptCall video_id,
                                         GenerateCall (system_prompt @ join_fragments [] frags)]\<rparr>)"
    for s
    using assms(3-5)
    by (simp add: button_branch_with_id [OF assms(1)] extract_transcript_details_ok [OF assms(2)]
        generate_gemini_content_def render_summary_def emit_def record_call_def)
  show ?thesis
    by (simp add: b run_script_button_with_id [OF assms(1)])
qed

text \<open>The theorem at a service that returns the two fragments and then the text \<^verbatim>\<open>X\<close>.\<close>

theorem summary_rendered_unmodified_witness:
  "get_video_id ''https://youtu.be/dQw4w9WgXcQ'' = Some ''dQw4w9WgXcQ''
   \<and> get_transcript (stub_services (Inr hello_world) (Inr ''X'')) ''dQw4w9WgXcQ'' = Inr hello_world
   \<and> join_fragments [] hello_world = '' Hello world''
   \<and> generate_content (stub_services (Inr hello_world) (Inr ''X''))
        (system_prompt @ join_fragments [] hello_world) = Inr ''X''
   \<and> ui (snd (button_branch (stub_services (Inr hello_world) (Inr ''X''))
        ''https://youtu.be/dQw4w9WgXcQ'' blank_page)) =
        [StSpinner spinner_text, StMarkdown ''---'',
         StSubheader ''Here are your detailed notes:'', StMarkdown ''X'']
   \<and> last (ui (snd (run_script (stub_services (Inr hello_world) (Inr ''X''))
        ''https://youtu.be/dQw4w9WgXcQ'' True blank_page))) = StMarkdown ''X''"
proof -
  let ?env = "stub_services (Inr hello_world) (Inr ''X'')"
  have h1: "get_video_id ''https://youtu.be/dQw4w9WgXcQ'' = Some ''dQw4w9WgXcQ''"
    by (simp add: get_video_id_def match_at_def match_alt_def id_char_def in_range_def)
  have h2: "get_transcript ?env ''dQw4w9WgXcQ'' = Inr hello_world"
    by (simp add: stub_services_def)
  have j: "join_fragments [] hello_world = '' Hello world''"
    by (simp add: hello_world_def)
  have h3: "join_fragments [] hello_world \<noteq> []"
    by (simp add: j)
  have h4: "generate_content ?env (system_prompt @ join_fragments [] hello_world) = Inr ''X''"
    by (simp add: stub_services_def)
  have h5: "''X'' \<noteq> []" by simp
  show ?thesis
    using summary_rendered_unmodified [OF h1 h2 h3 h4 h5, of blank_page] h1 h2 j h4
    by (simp add: blank_page_def)
qed

text \<open>
  For the empty text the claim fails: \<^verbatim>\<open>if summary:\<close> is false for the empty string,
  so after a successful fetch and a generation call that returned \<^verbatim>\<open>""\<close> the page
  holds the thumbnail and the spinner only, and no markdown element was written.
\<close>

theorem empty_summary_not_rendered_counterexample:
  "get_video_id ''https://youtu.be/dQw4w9WgXcQ'' = Some ''dQw4w9WgXcQ''
   \<and> fst (extract_transcript_details (stub_services (Inr hello_world) (Inr ''''))
        ''dQw4w9WgXcQ'' blank_page) = Inr (Some '' Hello world'')
   \<and> generate_content (stub_services (Inr hello_world) (Inr ''''))
        (system_prompt @ '' Hello world'') = Inr ''''
   \<and> run_script (stub_services (Inr hello_world) (Inr '''')) ''https://youtu.be/dQw4w9WgXcQ''
        True blank_page =
        (None, \<lparr>ui = [StImage ''http://img.youtube.com/vi/dQw4w9WgXcQ/0.jpg'' 500,
                      StSpinner spinner_text],
                calls = [TranscriptCall ''dQw4w9WgXcQ'',
                         GenerateCall (system_prompt @ '' Hello world'')]\<rparr>)
   \<and> StMarkdown '''' \<notin> set (ui (snd (run_script (stub_services (Inr hello_world) (Inr ''''))
        ''https://youtu.be/dQw4w9WgXcQ'' True blank_page)))"
proof -
  let ?env = "stub_services (Inr hello_world) (Inr '''')"
  have h1: "get_video_id ''https://youtu.be/dQw4w9WgXcQ'' = Some ''dQw4w9WgXcQ''"
    by (simp add: get_video_id_def match_at_def match_alt_def id_char_def in_range_def)
  have h2: "get_transcript ?env ''dQw4w9WgXcQ'' = Inr hello_world"
    by (simp add: stub_services_def)
  have j: "join_fragments [] hello_world = '' Hello world''"
    by (simp add: hello_world_def)
  have h4: "generate_content ?env p = Inr ''''" for p
    by (simp add: stub_services_def)
  have r: "run_script ?env ''https://youtu.be/dQw4w9WgXcQ'' True blank_page =
        (None, \<lparr>ui = [StImage ''http://img.youtube.com/vi/dQw4w9WgXcQ/0.jpg'' 500,
                      StSpinner spinner_text],
                calls = [TranscriptCall ''dQw4w9WgXcQ'',
                         GenerateCall (system_prompt @ '' Hello world'')]\<rparr>)"
    by (simp add: run_script_button_with_id [OF h1] button_branch_with_id [OF h1]
        extract_transcript_details_ok [OF h2] j generate_gemini_content_def h4
        emit_def record_call_def blank_page_def)
  show ?thesis
    by (simp add: h1 extract_transcript_details_ok [OF h2] j h4 r)
qed

subsection \<open>Runs that make no external call\<close>

text \<open>
  Claim C7. A click on the button while the link is empty shows the warning
  \<^verbatim>\<open>Please enter a YouTube link first.\<close> and nothing else, and the list of external
  calls is left as it was: neither the transcript service nor the generation service is
  called.
\<close>

theorem empty_link_warns_without_calls:
  "run_script env [] True s =
     (None, s\<lparr>ui := ui s @ [StWarning ''Please enter a YouTube link first.'']\<rparr>)
   \<and> calls (snd (run_script env [] True s)) = calls s"
  by (simp add: run_script_def input_section_def button_branch_def emit_def)

text \<open>
  Claim C10. A run of the script that makes any external call has extracted an identifier
  from the link, of 11 characters of the identifier class; and for a link that is not empty
  and yields no identifier, the button branch makes no call and puts nothing on the page.
\<close>

theorem no_external_call_without_video_id:
  "(calls (snd (run_script env youtube_link button s)) \<noteq> calls s \<longrightarrow>
      (\<exists>v. get_video_id youtube_link = Some v \<and> length v = 11 \<and> list_all id_char v))
   \<and> (youtube_link \<noteq> [] \<and> get_video_id youtube_link = None \<longrightarrow>
        button_branch env youtube_link s = (None, s))"
proof -
  have "\<exists>v. get_video_id youtube_link = Some v \<and> length v = 11 \<and> list_all id_char v"
    if c: "calls (snd (run_script env youtube_link button s)) \<noteq> calls s"
  proof (cases "get_video_id youtube_link")
    case None
    then have "calls (snd (run_script env youtube_link button s)) = calls s"
      by (simp add: run_script_def Let_def button_branch_calls_without_id calls_input_section)
    with c show ?thesis by simp
  next
    case (Some v)
    with get_video_id_Some_wellformed [OF Some] show ?thesis by simp
  qed
  moreover have "button_branch env youtube_link s = (None, s)"
    if "youtube_link \<noteq> [] \<and> get_video_id youtube_link = None"
    using that by (simp add: button_branch_without_id)
  ultimately show ?thesis by blast
qed

text \<open>
  The theorem at a short link, where the run does make calls, and at a text that is no
  link, where the only element on the page is the warning of the input section.
\<close>

theorem no_external_call_without_video_id_witness:
  "calls (snd (run_script (stub_services (Inr hello_world) (Inr ''X''))
        ''https://youtu.be/dQw4w9WgXcQ'' True blank_page)) \<noteq> calls blank_page
   \<and> get_video_id ''https://youtu.be/dQw4w9WgXcQ'' = Some ''dQw4w9WgXcQ''
   \<and> ''not a link'' \<noteq> [] \<and> get_video_id ''not a link'' = None
   \<and> button_branch (stub_services (Inr hello_world) (Inr ''X'')) ''not a link'' blank_page =
        (None, blank_page)
   \<and> run_script (stub_services (Inr hello_world) (Inr ''X'')) ''not a link'' True blank_page =
        (None, \<lparr>ui = [StWarning ''Please enter a valid YouTube URL.''], calls = []\<rparr>)"
proof -
  let ?env = "stub_services (Inr hello_world) (Inr ''X'')"
  let ?link = "''https://youtu.be/dQw4w9WgXcQ''"
  have h1: "get_video_id ?link = Some ''dQw4w9WgXcQ''"
    by (simp add: get_video_id_def match_at_def match_alt_def id_char_def in_range_def)
  have h2: "get_transcript ?env ''dQw4w9WgXcQ'' = Inr hello_world"
    by (simp add: stub_services_def)
  have h3: "generate_content ?env p = Inr ''X''" for p
    by (simp add: stub_services_def)
  have j: "join_fragments [] hello_world = '' Hello world''"
    by (simp add: hello_world_def)
  have c: "calls (snd (run_script ?env ?link True blank_page)) \<noteq> calls blank_page"
    by (simp add: run_script_button_with_id [OF h1] button_branch_with_id [OF h1]
        extract_transcript_details_ok [OF h2] j generate_gemini_content_def h3
        render_summary_def blank_page_def)
  have n: "''not a link'' \<noteq> []" "get_video_id ''not a link'' = None"
    by (simp_all add: get_video_id_def match_at_def match_alt_def id_char_def in_range_def)
  have b: "button_branch ?env ''not a link'' blank_page = (None, blank_page)"
    using no_external_call_without_video_id [of ?env "''not a link''" True blank_page] n
    by blast
  have r: "run_script ?env ''not a link'' True blank_page =
        (None, \<lparr>ui = [StWarning ''Please enter a valid YouTube URL.''], calls = []\<rparr>)"
    using n by (simp add: run_script_def input_section_def button_branch_without_id
        blank_page_def emit_def)
  from c h1 n b r show ?thesis by blast
qed

subsection \<open>Exceptions stop at the step that raised them\<close>




end
